theory Spec2Isabelle
  imports Complex_Main
begin

section \<open>Tensors, errors and float values\<close>

text \<open>
  A dense tensor is its shape together with its entries in row-major order, which is
  the view under which \<^verbatim>\<open>tf.reshape\<close> keeps the data and changes the shape only.
  Reals stand for the float32 entries; the one non-real float value the code can
  produce on the paths modelled here is NaN (a mean over an empty ragged row, or 0/0).
\<close>

record 'a tensor =
  shape :: "nat list"
  flat :: "'a list"

datatype py_error = TypeError | InvalidArgument | ZeroDivisionError

datatype float_val = Finite real | NaN

text \<open>
  \<^verbatim>\<open>tf.reshape(t, (-1, d1, ..., dk))\<close>: the leading dimension is inferred. TensorFlow
  raises when the entry count is not a multiple of \<open>d1 * ... * dk\<close>, and when that
  product is zero (the missing size of an empty tensor cannot be inferred).
\<close>

definition reshape_infer :: "'a list \<Rightarrow> nat list \<Rightarrow> py_error + 'a tensor" where
  "reshape_infer xs dims =
     (let k = prod_list dims in
      if k = 0 \<or> length xs mod k \<noteq> 0 then Inl InvalidArgument
      else Inr \<lparr>shape = (length xs div k) # dims, flat = xs\<rparr>)"

text \<open>\<^verbatim>\<open>tf.reshape(t, shape)\<close> with a fully given shape: the entry counts must agree.\<close>

definition reshape_to :: "'a list \<Rightarrow> nat list \<Rightarrow> py_error + 'a tensor" where
  "reshape_to xs dims =
     (if length xs = prod_list dims then Inr \<lparr>shape = dims, flat = xs\<rparr>
      else Inl InvalidArgument)"

section \<open>Masking (set\_ae.py, set\_vae\_v2.py)\<close>

text \<open>
  \<^verbatim>\<open>tf.sequence_mask(lengths, maxlen)\<close>: entry \<open>[i, j]\<close> is \<open>j < lengths[i]\<close> for
  \<open>j\<close> in \<open>range(maxlen)\<close>. No comparison of \<open>lengths[i]\<close> with \<open>maxlen\<close> is made.
\<close>

definition sequence_mask :: "int list \<Rightarrow> nat \<Rightarrow> bool list list" where
  "sequence_mask lengths maxlen = map (\<lambda>l. map (\<lambda>j. int j < l) [0..<maxlen]) lengths"

text \<open>
  The first statement of \<^verbatim>\<open>call\<close>, \<^verbatim>\<open>encode_set\<close> and \<^verbatim>\<open>decode_set\<close>:
  \<^verbatim>\<open>tf.reshape(tf.cast(tf.math.logical_not(tf.sequence_mask(sizes, self.max_set_size)),
  tf.float32), [-1, 1, 1, self.max_set_size])\<close>.
\<close>

definition masked_values :: "int list \<Rightarrow> nat \<Rightarrow> py_error + real tensor" where
  "masked_values sizes max_set_size =
     reshape_infer
       (concat (map (map (\<lambda>b. if \<not> b then (1::real) else 0)) (sequence_mask sizes max_set_size)))
       [1, 1, max_set_size]"

section \<open>The layer-wise-conditioning model (set\_vae\_v2.py)\<close>

type_synonym padded_set = "real list list list"

text \<open>
  \<^verbatim>\<open>SetDecoder.call(self, initial_set, mask, conditioning)\<close> has three required
  parameters. A call that supplies two positional arguments raises TypeError before the
  body runs; the argument that may be absent is an option. The body (Conv1D, PICASO and
  TransformerLayer objects, whose classes are not part of the sources) is the parameter
  \<open>body\<close>.
\<close>

definition SetDecoder_call ::
  "(padded_set \<Rightarrow> real tensor \<Rightarrow> padded_set \<Rightarrow> padded_set) \<Rightarrow>
   padded_set \<Rightarrow> real tensor \<Rightarrow> padded_set option \<Rightarrow> py_error + padded_set" where
  "SetDecoder_call body initial_set msk conditioning =
     (case conditioning of
        None \<Rightarrow> Inl TypeError
      | Some c \<Rightarrow> Inr (body initial_set msk c))"

text \<open>\<^verbatim>\<open>tf.tile(tf.expand_dims(z, 1), [1, max_set_size, 1])\<close> on a \<open>[B, D]\<close> latent.\<close>

definition tile_latent :: "real list list \<Rightarrow> nat \<Rightarrow> padded_set" where
  "tile_latent z max_set_size = map (\<lambda>v. replicate max_set_size v) z"

text \<open>
  \<^verbatim>\<open>tf.concat([a, b], 2)\<close> on rank-3 tensors: the first two axes must agree.
\<close>

definition concat_axis2 :: "padded_set \<Rightarrow> padded_set \<Rightarrow> py_error + padded_set" where
  "concat_axis2 a b =
     (if map length a = map length b
      then Inr (map (\<lambda>(x, y). map (\<lambda>(e, f). e @ f) (zip x y)) (zip a b))
      else Inl InvalidArgument)"

text \<open>A fixed-scale independent Normal: the mean tensor and the scale.\<close>

record normal_dist =
  loc :: padded_set
  scale :: real

text \<open>
  \<^verbatim>\<open>SetVariationalAutoEncoderV2.decode_set\<close>, statement by statement. The decoder is
  invoked with two arguments (the conditioned seeds and the mask).
\<close>

definition decode_set ::
  "(padded_set \<Rightarrow> real tensor \<Rightarrow> padded_set \<Rightarrow> padded_set) \<Rightarrow> (padded_set \<Rightarrow> padded_set) \<Rightarrow>
   nat \<Rightarrow> real list list \<Rightarrow> padded_set \<Rightarrow> int list \<Rightarrow> py_error + normal_dist" where
  "decode_set body set_prediction_mean max_set_size set_latent initial_set sizes =
     (case masked_values sizes max_set_size of
        Inl e \<Rightarrow> Inl e
      | Inr msk \<Rightarrow>
          (case concat_axis2 initial_set (tile_latent set_latent max_set_size) of
             Inl e \<Rightarrow> Inl e
           | Inr sampled_elements_conditioned \<Rightarrow>
               (case SetDecoder_call body sampled_elements_conditioned msk None of
                  Inl e \<Rightarrow> Inl e
                | Inr pred_set_latent \<Rightarrow>
                    Inr \<lparr>loc = set_prediction_mean pred_set_latent, scale = 0.005\<rparr>)))"

text \<open>
  The sibling path, \<^verbatim>\<open>SetVariationalAutoEncoderV2.call\<close> after the encoder has produced
  the latent: the decoder receives the seeds, the mask and the tiled latent.
\<close>

definition call_decoder ::
  "(padded_set \<Rightarrow> real tensor \<Rightarrow> padded_set \<Rightarrow> padded_set) \<Rightarrow> (padded_set \<Rightarrow> padded_set) \<Rightarrow>
   nat \<Rightarrow> real list list \<Rightarrow> padded_set \<Rightarrow> int list \<Rightarrow> py_error + padded_set" where
  "call_decoder body set_prediction_mean max_set_size encoded sampled_set sizes =
     (case masked_values sizes max_set_size of
        Inl e \<Rightarrow> Inl e
      | Inr msk \<Rightarrow>
          (case SetDecoder_call body sampled_set msk (Some (tile_latent encoded max_set_size)) of
             Inl e \<Rightarrow> Inl e
           | Inr pred_set_latent \<Rightarrow> Inr (set_prediction_mean pred_set_latent)))"

section \<open>Optimiser ownership (mnist\_vae.py)\<close>

datatype optimiser = ReconstructionOptimiser | PriorOptimiser | SizePredOptimiser

datatype partition = AutoencoderWeights | PriorWeights | SizePredictorWeights

text \<open>
  The trainer's optimiser state: the iteration counter of each optimiser instance
  (which drives the one-cycle schedule of the reconstruction optimiser) and the log of
  \<^verbatim>\<open>apply_gradients\<close> calls, oldest first.
\<close>

record trainer =
  iterations :: "optimiser \<Rightarrow> nat"
  applied :: "(optimiser \<times> partition) list"

definition apply_gradients :: "optimiser \<Rightarrow> partition \<Rightarrow> trainer \<Rightarrow> trainer" where
  "apply_gradients opt part s =
     s\<lparr>iterations := (iterations s)(opt := Suc (iterations s opt)),
       applied := applied s @ [(opt, part)]\<rparr>"

text \<open>
  \<^verbatim>\<open>train_vae_step\<close>: \<^verbatim>\<open>self.reconstruction_optimiser.apply_gradients(zip(model_grads,
  self.vae.get_autoencoder_weights()))\<close>.
\<close>

definition train_vae_step :: "trainer \<Rightarrow> trainer" where
  "train_vae_step s = apply_gradients ReconstructionOptimiser AutoencoderWeights s"

text \<open>
  \<^verbatim>\<open>train_size_predictor_step\<close>: \<^verbatim>\<open>self.reconstruction_optimiser.apply_gradients(
  zip(model_grads, self.vae.get_size_predictor_weights()))\<close>.
\<close>

definition train_size_predictor_step :: "trainer \<Rightarrow> trainer" where
  "train_size_predictor_step s = apply_gradients ReconstructionOptimiser SizePredictorWeights s"

text \<open>
  The pairing made in \<^verbatim>\<open>__init__\<close>: one optimiser per learning rate
  (\<^verbatim>\<open>reconstruction_learning_rate\<close>, \<^verbatim>\<open>prior_learning_rate\<close>,
  \<^verbatim>\<open>size_pred_learning_rate\<close>).
\<close>

fun owner :: "partition \<Rightarrow> optimiser" where
  "owner AutoencoderWeights = ReconstructionOptimiser"
| "owner PriorWeights = PriorOptimiser"
| "owner SizePredictorWeights = SizePredOptimiser"

text \<open>The inner loop of \<^verbatim>\<open>train_size_predictor\<close> over \<open>n\<close> batches.\<close>

definition train_size_predictor :: "nat \<Rightarrow> trainer \<Rightarrow> trainer" where
  "train_size_predictor n s = (train_size_predictor_step ^^ n) s"

section \<open>The one-cycle schedule (one\_cycle\_adam.py)\<close>

text \<open>
  Python's \<^verbatim>\<open>int(x)\<close> on a float truncates towards zero. The products
  \<^verbatim>\<open>cycle_length * 0.1\<close>, \<^verbatim>\<open>* 0.3\<close>, \<^verbatim>\<open>* 0.6\<close> are taken over the reals.
\<close>

definition py_int :: "real \<Rightarrow> int" where
  "py_int x = (if 0 \<le> x then \<lfloor>x\<rfloor> else \<lceil>x\<rceil>)"

text \<open>The three fields set by \<^verbatim>\<open>OneCycleSchedule.__init__\<close>.\<close>

record schedule =
  warmup_end_step :: int
  max_end_step :: int
  decay_end_step :: int

definition OneCycleSchedule :: "int \<Rightarrow> schedule" where
  "OneCycleSchedule cycle_length =
     (let w = py_int (of_int cycle_length * 0.1);
          m = w + py_int (of_int cycle_length * 0.3);
          d = m + py_int (of_int cycle_length * 0.6)
      in \<lparr>warmup_end_step = w, max_end_step = m, decay_end_step = d\<rparr>)"

text \<open>
  \<^verbatim>\<open>step / self._warmup_end_step\<close> on the optimiser's iteration counter (a non-negative
  integer tensor): a float division, which raises nothing; in the warm-up branch a zero
  divisor meets \<open>step = 0\<close> only, and 0/0 is NaN.
\<close>

definition tf_truediv :: "nat \<Rightarrow> int \<Rightarrow> float_val" where
  "tf_truediv a b = (if b = 0 then NaN else Finite (real a / of_int b))"

fun affine :: "real \<Rightarrow> real \<Rightarrow> float_val \<Rightarrow> float_val" where
  "affine a b (Finite x) = Finite (a + b * x)"
| "affine a b NaN = NaN"

text \<open>
  \<^verbatim>\<open>OneCycleSchedule.__call__\<close>: \<^verbatim>\<open>tf.case\<close> takes the first predicate that holds
  and runs that branch only. In \<^verbatim>\<open>final_decay\<close>, \<^verbatim>\<open>1 / self._decay_end_step\<close> is a
  Python division of integers and raises ZeroDivisionError on zero; the exponent
  \<^verbatim>\<open>step - self._decay_end_step\<close> is a positive whole number there.
\<close>

definition schedule_call :: "schedule \<Rightarrow> nat \<Rightarrow> py_error + float_val" where
  "schedule_call s step =
     (if int step \<le> warmup_end_step s then
        Inr (affine 0.1 0.9 (tf_truediv step (warmup_end_step s)))
      else if int step \<le> max_end_step s then Inr (Finite 1.0)
      else if int step \<le> decay_end_step s then
        (let decay_step = int step - max_end_step s in
         Inr (Finite (1 - 0.9 * (of_int decay_step / of_int (decay_end_step s - max_end_step s)))))
      else
        (let final_step = int step - decay_end_step s in
         if decay_end_step s = 0 then Inl ZeroDivisionError
         else Inr (Finite (0.1 * (1 - 1 / of_int (decay_end_step s)) ^ nat final_step))))"

text \<open>\<^verbatim>\<open>OneCycleSchedule.get_momentum\<close>.\<close>

definition get_momentum :: "schedule \<Rightarrow> nat \<Rightarrow> py_error + float_val" where
  "get_momentum s step =
     (if int step \<le> warmup_end_step s then
        Inr (affine 0.95 (- 0.1) (tf_truediv step (warmup_end_step s)))
      else if int step \<le> max_end_step s then Inr (Finite 0.85)
      else if int step \<le> decay_end_step s then
        (let decay_step = int step - max_end_step s in
         Inr (Finite (0.85 + 0.1 * (of_int decay_step / of_int (decay_end_step s - max_end_step s)))))
      else Inr (Finite 0.95))"

text \<open>
  The reference schedule, following the specification's wording, for phase boundaries
  \<open>w\<close> (warm-up end), \<open>m\<close> (plateau end) and \<open>d\<close> (decay end): a linear ramp
  from \<open>v0\<close> at \<open>t0\<close> to \<open>v1\<close> at \<open>t1\<close>, and the four phases of each multiplier.
\<close>

definition ramp :: "real \<Rightarrow> real \<Rightarrow> real \<Rightarrow> real \<Rightarrow> real \<Rightarrow> real" where
  "ramp v0 v1 t0 t1 t = v0 + (v1 - v0) * ((t - t0) / (t1 - t0))"

definition lr_reference :: "real \<Rightarrow> real \<Rightarrow> real \<Rightarrow> nat \<Rightarrow> real" where
  "lr_reference w m d step =
     (if real step \<le> w then ramp 0.1 1.0 0 w (real step)
      else if real step \<le> m then 1.0
      else if real step \<le> d then ramp 1.0 0.1 m d (real step)
      else 0.1 * (1 - 1 / d) ^ nat \<lfloor>real step - d\<rfloor>)"

definition momentum_reference :: "real \<Rightarrow> real \<Rightarrow> real \<Rightarrow> nat \<Rightarrow> real" where
  "momentum_reference w m d step =
     (if real step \<le> w then ramp 0.95 0.85 0 w (real step)
      else if real step \<le> m then 0.85
      else if real step \<le> d then ramp 0.85 0.95 m d (real step)
      else 0.95)"

text \<open>The reference with its boundaries at 10, 40 and 100 percent of the cycle length.\<close>

definition lr_claimed :: "int \<Rightarrow> nat \<Rightarrow> real" where
  "lr_claimed c step = lr_reference (0.1 * of_int c) (0.4 * of_int c) (of_int c) step"

definition momentum_claimed :: "int \<Rightarrow> nat \<Rightarrow> real" where
  "momentum_claimed c step = momentum_reference (0.1 * of_int c) (0.4 * of_int c) (of_int c) step"

section \<open>The stochastic seed sampler (set\_ae.py, set\_autoencoder.py)\<close>

text \<open>
  \<^verbatim>\<open>tf.RaggedTensor.from_row_lengths(values, row_lengths)\<close> cuts the value rows into
  consecutive rows of the given lengths, and raises unless the lengths add up to the
  number of values. Sizes are cardinalities, hence naturals.
\<close>

fun split_rows :: "'a list \<Rightarrow> nat list \<Rightarrow> 'a list list" where
  "split_rows vs [] = []"
| "split_rows vs (n # ns) = take n vs # split_rows (drop n vs) ns"

definition from_row_lengths :: "'a list \<Rightarrow> nat list \<Rightarrow> py_error + 'a list list" where
  "from_row_lengths vals row_lengths =
     (if sum_list row_lengths = length vals then Inr (split_rows vals row_lengths)
      else Inl InvalidArgument)"

text \<open>
  \<^verbatim>\<open>to_tensor(default_value, shape)\<close> pads every axis with the default value, or
  truncates it, to the requested extent.
\<close>

definition pad_to :: "nat \<Rightarrow> 'a \<Rightarrow> 'a list \<Rightarrow> 'a list" where
  "pad_to k d xs = take k (xs @ replicate (k - length xs) d)"

definition to_tensor :: "real \<Rightarrow> nat \<Rightarrow> nat \<Rightarrow> nat \<Rightarrow> real list list list \<Rightarrow> padded_set" where
  "to_tensor default_value b n f rt =
     pad_to b (replicate n (replicate f default_value))
       (map (\<lambda>row. pad_to n (replicate f default_value) (map (pad_to f default_value) row)) rt)"

text \<open>
  \<^verbatim>\<open>sample_prior\<close> and \<^verbatim>\<open>sample_prior_batch\<close> of \<^verbatim>\<open>SetAutoEncoder\<close> and
  \<^verbatim>\<open>Tspn\<close> (the two bodies are the same). The prior layer, whose class is not part of
  the sources, is the parameter \<open>prior\<close>: called with a count, it returns the drawn
  samples.
\<close>

definition sample_prior :: "(nat \<Rightarrow> real list list) \<Rightarrow> nat list \<Rightarrow> real list list" where
  "sample_prior prior sizes = (let total_elements = sum_list sizes in prior total_elements)"

definition sample_prior_batch ::
  "(nat \<Rightarrow> real list list) \<Rightarrow> real \<Rightarrow> nat \<Rightarrow> nat \<Rightarrow> nat list \<Rightarrow> py_error + padded_set" where
  "sample_prior_batch prior pad_value max_set_size num_element_features sizes =
     (let sampled_elements = sample_prior prior sizes in
      case from_row_lengths sampled_elements sizes of
        Inl e \<Rightarrow> Inl e
      | Inr samples_ragged \<Rightarrow>
          Inr (to_tensor pad_value (length sizes) max_set_size num_element_features samples_ragged))"

section \<open>The probabilistic Chamfer loss (prob\_chamfer\_distance.py)\<close>

text \<open>
  The \<open>k\<close>-th run of \<open>n\<close> consecutive entries of a row-major list, and the list cut
  into \<open>k\<close> such runs: the nested view of a reshaped tensor.
\<close>

definition chunk :: "nat \<Rightarrow> nat \<Rightarrow> 'a list \<Rightarrow> 'a list" where
  "chunk n k xs = take n (drop (k * n) xs)"

definition chunks :: "nat \<Rightarrow> nat \<Rightarrow> 'a list \<Rightarrow> 'a list list" where
  "chunks k n xs = map (\<lambda>i. chunk n i xs) [0..<k]"

text \<open>
  \<^verbatim>\<open>tf.split(set, max_size, axis=-2)\<close> on a set of shape \<open>bs @ [n, f]\<close> with
  \<open>n = max_size\<close>: piece \<open>i\<close> holds, for every batch item \<open>k\<close>, the one element in
  slot \<open>i\<close>.
\<close>

definition split_axis2 :: "real list \<Rightarrow> nat \<Rightarrow> nat \<Rightarrow> nat \<Rightarrow> real list list list" where
  "split_axis2 xs b n f =
     map (\<lambda>i. map (\<lambda>k. chunk f (k * n + i) xs) [0..<b]) [0..<n]"

text \<open>
  \<^verbatim>\<open>set_dists.log_prob(set_row[i])\<close>: \<open>set_dists\<close> carries one distribution per batch
  item and slot (batch shape \<open>bs @ [n]\<close>); the one element of each batch item in the row
  is scored under the \<open>n\<close> distributions of that item. How a distribution scores an
  element is the caller's: the parameter \<open>lp\<close>.
\<close>

definition log_prob ::
  "('d \<Rightarrow> real list \<Rightarrow> real) \<Rightarrow> 'd list \<Rightarrow> nat \<Rightarrow> nat \<Rightarrow> real list list \<Rightarrow> real list" where
  "log_prob lp dists b n row =
     concat (map (\<lambda>k. map (\<lambda>j. lp (dists ! (k * n + j)) (row ! k)) [0..<n]) [0..<b])"

text \<open>
  \<^verbatim>\<open>tf.stack(probs, axis=-2)\<close> of tensors of shape \<open>bs @ [n]\<close>: for each batch item,
  the item's run of each stacked tensor in turn.
\<close>

definition stack_axis2 :: "'a list list \<Rightarrow> nat \<Rightarrow> nat \<Rightarrow> 'a list" where
  "stack_axis2 ts b n = concat (map (\<lambda>k. concat (map (chunk n k) ts)) [0..<b])"

text \<open>
  Lines 13 to 22 of \<^verbatim>\<open>prob_chamfer_distance\<close>: the loop appends one row of scores
  per set slot, and the rows are stacked.
\<close>

definition log_probs_rowwise ::
  "('d \<Rightarrow> real list \<Rightarrow> real) \<Rightarrow> 'd list \<Rightarrow> real list \<Rightarrow> nat \<Rightarrow> nat \<Rightarrow> nat \<Rightarrow> nat \<Rightarrow> real list" where
  "log_probs_rowwise lp dists xs b n f max_size =
     (let set_row = split_axis2 xs b n f;
          probs = foldl (\<lambda>probs i. probs @ [log_prob lp dists b n (set_row ! i)]) [] [0..<max_size]
      in stack_axis2 probs b n)"

text \<open>
  The comparison tensor computed at once, as the specification words it: for every batch
  item, the score of every set element \<open>i\<close> under every distribution \<open>j\<close>, flattened
  in row-major order.
\<close>

definition log_probs_full ::
  "('d \<Rightarrow> real list \<Rightarrow> real) \<Rightarrow> 'd list \<Rightarrow> real list \<Rightarrow> nat \<Rightarrow> nat \<Rightarrow> nat \<Rightarrow> real list" where
  "log_probs_full lp dists xs b n f =
     concat (map (\<lambda>k.
       concat (map (\<lambda>i.
         map (\<lambda>j. lp (dists ! (k * n + j)) (chunk f (k * n + i) xs)) [0..<n]) [0..<n])) [0..<b])"

text \<open>
  \<^verbatim>\<open>tf.reduce_max(sizes_flat)\<close> on cardinalities. On an empty batch the slice bound it
  gives selects nothing, as the bound 0 does.
\<close>

definition reduce_max_sizes :: "nat list \<Rightarrow> nat" where
  "reduce_max_sizes xs = fold max xs 0"

text \<open>
  \<^verbatim>\<open>tf.reduce_max\<close> over one ragged row (never empty: an item of size 0 has no rows)
  and \<^verbatim>\<open>tf.reduce_mean\<close> over one, which is NaN on an empty row.
\<close>

definition reduce_max :: "real list \<Rightarrow> real" where
  "reduce_max xs = Max (set xs)"

definition reduce_mean :: "real list \<Rightarrow> float_val" where
  "reduce_mean xs = (if xs = [] then NaN else Finite (sum_list xs / real (length xs)))"

fun fadd :: "float_val \<Rightarrow> float_val \<Rightarrow> float_val" where
  "fadd (Finite x) (Finite y) = Finite (x + y)"
| "fadd _ _ = NaN"

text \<open>
  Lines 38 to 42 for one batch item, on its ragged matrix \<open>m\<close> (\<open>s\<close> rows of \<open>s\<close>
  scores): the row maxima, the column maxima, and the sum of their means.
\<close>

definition setwise_distance :: "real list list \<Rightarrow> float_val" where
  "setwise_distance m =
     (let a_to_b = map reduce_max m;
          b_to_a = map (\<lambda>j. reduce_max (map (\<lambda>r. r ! j) m)) [0..<length m]
      in fadd (reduce_mean a_to_b) (reduce_mean b_to_a))"

text \<open>
  Lines 25 to 47: the reshape to \<open>[-1, max_size, max_size]\<close>, the slice to the largest
  size, the ragged tensor with \<open>sizes\<close> rows of \<open>sizes\<close> entries per item, the
  reductions and the reshape to the batch axes. \<^verbatim>\<open>RaggedTensor.from_tensor\<close> needs one
  length per matrix, and the mask it builds from the lengths must have the extents of
  the sliced tensor, so a size above \<open>max_size\<close> raises.
\<close>

definition chamfer_of_log_probs ::
  "real list \<Rightarrow> nat list \<Rightarrow> nat list \<Rightarrow> nat \<Rightarrow> py_error + float_val tensor" where
  "chamfer_of_log_probs log_probs_flat sizes_flat out_shape max_size =
     (case reshape_infer log_probs_flat [max_size, max_size] of
        Inl e \<Rightarrow> Inl e
      | Inr log_probs \<Rightarrow>
          (let largest_unpadded_dim = reduce_max_sizes sizes_flat;
               mats = map (chunks max_size max_size)
                        (chunks (hd (shape log_probs)) (max_size * max_size) (flat log_probs));
               log_probs_trimmed =
                 map (\<lambda>m. map (take largest_unpadded_dim) (take largest_unpadded_dim m)) mats
           in if length sizes_flat \<noteq> length log_probs_trimmed \<or> max_size < largest_unpadded_dim
              then Inl InvalidArgument
              else
                (let ragged = map (\<lambda>(m, s). map (take s) (take s m)) (zip log_probs_trimmed sizes_flat)
                 in reshape_to (map setwise_distance ragged) out_shape)))"

text \<open>
  \<^verbatim>\<open>prob_chamfer_distance(set_dists, set, sizes, max_size)\<close>. The set has shape
  \<open>bs @ [n, f]\<close>; \<^verbatim>\<open>tf.split\<close> into \<open>max_size\<close> pieces and the scoring of one-slot
  rows need \<open>n = max_size > 0\<close>. The distributions are taken with batch shape
  \<open>bs @ [n]\<close>; broadcasting of unit axes between the two arguments is not modelled.
\<close>

definition prob_chamfer_distance ::
  "('d \<Rightarrow> real list \<Rightarrow> real) \<Rightarrow> 'd tensor \<Rightarrow> real tensor \<Rightarrow> nat tensor \<Rightarrow> nat \<Rightarrow>
   py_error + float_val tensor" where
  "prob_chamfer_distance lp set_dists set_t sizes max_size =
     (case rev (shape set_t) of
        f # n # rbs \<Rightarrow>
          (let b = prod_list (rev rbs) in
           if max_size = 0 \<or> n \<noteq> max_size \<or> shape set_dists \<noteq> rev rbs @ [n]
           then Inl InvalidArgument
           else chamfer_of_log_probs
                  (log_probs_rowwise lp (flat set_dists) (flat set_t) b n f max_size)
                  (flat sizes) (rev rbs) max_size)
      | _ \<Rightarrow> Inl InvalidArgument)"

text \<open>The same loss on the comparison tensor computed at once.\<close>

definition prob_chamfer_naive ::
  "('d \<Rightarrow> real list \<Rightarrow> real) \<Rightarrow> 'd tensor \<Rightarrow> real tensor \<Rightarrow> nat tensor \<Rightarrow> nat \<Rightarrow>
   py_error + float_val tensor" where
  "prob_chamfer_naive lp set_dists set_t sizes max_size =
     (case rev (shape set_t) of
        f # n # rbs \<Rightarrow>
          (let b = prod_list (rev rbs) in
           if max_size = 0 \<or> n \<noteq> max_size \<or> shape set_dists \<noteq> rev rbs @ [n]
           then Inl InvalidArgument
           else chamfer_of_log_probs
                  (log_probs_full lp (flat set_dists) (flat set_t) b n f)
                  (flat sizes) (rev rbs) max_size)
      | _ \<Rightarrow> Inl InvalidArgument)"

text \<open>
  The loss of one batch item as the specification states it, for the score \<open>e i j\<close> of
  set element \<open>i\<close> under distribution \<open>j\<close> and the cardinality \<open>s\<close>: the mean over
  the valid rows of the row maximum plus the mean over the valid columns of the column
  maximum.
\<close>

definition chamfer_reference :: "(nat \<Rightarrow> nat \<Rightarrow> real) \<Rightarrow> nat \<Rightarrow> real" where
  "chamfer_reference e s =
     (\<Sum>i<s. Max ((\<lambda>j. e i j) ` {..<s})) / real s +
     (\<Sum>j<s. Max ((\<lambda>i. e i j) ` {..<s})) / real s"

text \<open>The reference loss as a float value: a cardinality of zero gives NaN.\<close>

definition item_loss :: "(nat \<Rightarrow> nat \<Rightarrow> real) \<Rightarrow> nat \<Rightarrow> float_val" where
  "item_loss e s = (if s = 0 then NaN else Finite (chamfer_reference e s))"

text \<open>
  The log-density of \<^verbatim>\<open>tfd.Normal(loc, scale)\<close> and of
  \<^verbatim>\<open>tfd.Independent(tfd.Normal(mean, scale), 1)\<close>, which sums over the feature axis;
  the scale is one number for all elements.
\<close>

definition normal_log_prob :: "real \<Rightarrow> real \<Rightarrow> real \<Rightarrow> real" where
  "normal_log_prob sigma mu x = - 0.5 * ((x - mu) / sigma)\<^sup>2 - (0.5 * ln (2 * pi) + ln sigma)"

definition independent_normal_log_prob :: "real \<Rightarrow> real list \<Rightarrow> real list \<Rightarrow> real" where
  "independent_normal_log_prob sigma mean x =
     sum_list (map (\<lambda>(mu, v). normal_log_prob sigma mu v) (zip mean x))"

section \<open>Results: masking\<close>

lemma if_swap: "(if \<not> P then a else b) = (if P then b else a)"
  by simp

lemma sequence_mask_length: "length (sequence_mask sizes m) = length sizes"
  by (simp add: sequence_mask_def)

lemma length_concat_uniform:
  "(\<And>x. x \<in> set xss \<Longrightarrow> length x = k) \<Longrightarrow> length (concat xss) = length xss * k"
  by (induction xss) simp_all

lemma mask_flat_length:
  "length (concat (map (map (\<lambda>b. if \<not> b then (1::real) else 0)) (sequence_mask sizes m)))
     = length sizes * m"
  by (rule trans [OF length_concat_uniform [where k = m]])
     (auto simp: sequence_mask_def)

lemma masked_values_eq:
  "0 < m \<Longrightarrow> masked_values sizes m =
     Inr \<lparr>shape = [length sizes, 1, 1, m],
          flat = concat (map (\<lambda>l. map (\<lambda>j. if int j < l then (0::real) else 1) [0..<m]) sizes)\<rparr>"
proof -
  assume m: "0 < m"
  have fl: "concat (map (map (\<lambda>b. if \<not> b then (1::real) else 0)) (sequence_mask sizes m))
              = concat (map (\<lambda>l. map (\<lambda>j. if int j < l then (0::real) else 1) [0..<m]) sizes)"
    by (simp add: sequence_mask_def comp_def if_swap)
  show ?thesis
    unfolding masked_values_def reshape_infer_def Let_def
    using m by (simp add: mask_flat_length fl [symmetric])
qed




section \<open>Results: the decoder call of decode\_set\<close>

text \<open>
  Claim C9 (fails on the code): \<^verbatim>\<open>decode_set\<close> returns no distribution on any input,
  since its decoder call lacks the conditioning argument.
\<close>

theorem decode_set_never_returns:
  "isl (decode_set body head m set_latent initial_set sizes)"
  by (simp add: decode_set_def SetDecoder_call_def split: sum.splits)

lemma decode_set_type_error:
  "decode_set body head 2 [[7]] [[[1], [2]]] [2] = Inl TypeError"
  by (simp add: decode_set_def SetDecoder_call_def masked_values_eq concat_axis2_def
      tile_latent_def numeral_2_eq_2)

lemma call_decoder_returns:
  "0 < m \<Longrightarrow> call_decoder body head m encoded sampled_set sizes
     = Inr (head (body sampled_set
              \<lparr>shape = [length sizes, 1, 1, m],
               flat = concat (map (\<lambda>l. map (\<lambda>j. if int j < l then (0::real) else 1) [0..<m]) sizes)\<rparr>
              (tile_latent encoded m)))"
  by (simp add: call_decoder_def SetDecoder_call_def masked_values_eq)

section \<open>Results: optimiser ownership\<close>

text \<open>
  Claim C5 (fails on the code): a size-predictor step writes the size-predictor
  partition through the reconstruction optimiser, which does not own it, and leaves the
  size-predictor's own optimiser untouched.
\<close>

theorem size_predictor_step_uses_reconstruction_optimiser:
  "applied (train_size_predictor_step s)
     = applied s @ [(ReconstructionOptimiser, SizePredictorWeights)] \<and>
   owner SizePredictorWeights \<noteq> ReconstructionOptimiser \<and>
   iterations (train_size_predictor_step s) SizePredOptimiser = iterations s SizePredOptimiser \<and>
   iterations (train_size_predictor_step s) ReconstructionOptimiser
     = Suc (iterations s ReconstructionOptimiser)"
  by (simp add: train_size_predictor_step_def apply_gradients_def)

text \<open>Every step of the size-predictor loop goes through the reconstruction optimiser.\<close>

lemma train_size_predictor_applied:
  "applied (train_size_predictor n s)
     = applied s @ replicate n (ReconstructionOptimiser, SizePredictorWeights)"
proof (induction n)
  case 0
  then show ?case by (simp add: train_size_predictor_def)
next
  case (Suc n)
  then show ?case
    by (simp add: train_size_predictor_def train_size_predictor_step_def apply_gradients_def
        replicate_append_same)
qed

section \<open>Results: the one-cycle schedule\<close>

lemma py_int_tenths: "0 \<le> c \<Longrightarrow> py_int (of_int c * 0.1) = c div 10"
  "0 \<le> c \<Longrightarrow> py_int (of_int c * 0.3) = (3 * c) div 10"
  "0 \<le> c \<Longrightarrow> py_int (of_int c * 0.6) = (6 * c) div 10"
proof -
  assume c: "0 \<le> c"
  have a: "of_int c * (0.1::real) = of_int c / of_int 10" by simp
  have b: "of_int c * (0.3::real) = of_int (3 * c) / of_int 10" by simp
  have d: "of_int c * (0.6::real) = of_int (6 * c) / of_int 10" by simp
  show "py_int (of_int c * 0.1) = c div 10"
    unfolding py_int_def a floor_divide_of_int_eq using c by simp
  show "py_int (of_int c * 0.3) = (3 * c) div 10"
    unfolding py_int_def b floor_divide_of_int_eq using c by simp
  show "py_int (of_int c * 0.6) = (6 * c) div 10"
    unfolding py_int_def d floor_divide_of_int_eq using c by simp
qed

lemma OneCycleSchedule_eq:
  assumes "0 \<le> c"
  shows "OneCycleSchedule c =
     \<lparr>warmup_end_step = c div 10, max_end_step = c div 10 + (3 * c) div 10,
      decay_end_step = c div 10 + (3 * c) div 10 + (6 * c) div 10\<rparr>"
  using assms by (simp only: OneCycleSchedule_def Let_def py_int_tenths)

lemma schedule_call_piecewise:
  assumes w: "1 \<le> w" and m: "w \<le> m" and d: "m \<le> d"
  shows "schedule_call \<lparr>warmup_end_step = w, max_end_step = m, decay_end_step = d\<rparr> step
           = Inr (Finite (lr_reference (of_int w) (of_int m) (of_int d) step))"
proof -
  have fl: "\<lfloor>real step - real_of_int d\<rfloor> = int step - d"
    by (metis floor_of_int of_int_diff of_int_of_nat_eq)
  have le: "\<And>k. (real step \<le> real_of_int k) = (int step \<le> k)"
    by (metis of_int_le_iff of_int_of_nat_eq)
  show ?thesis
    using w m d
    by (simp add: schedule_call_def lr_reference_def ramp_def tf_truediv_def Let_def fl le)
qed

lemma get_momentum_piecewise:
  assumes w: "1 \<le> w" and m: "w \<le> m" and d: "m \<le> d"
  shows "get_momentum \<lparr>warmup_end_step = w, max_end_step = m, decay_end_step = d\<rparr> step
           = Inr (Finite (momentum_reference (of_int w) (of_int m) (of_int d) step))"
proof -
  have le: "\<And>k. (real step \<le> real_of_int k) = (int step \<le> k)"
    by (metis of_int_le_iff of_int_of_nat_eq)
  show ?thesis
    using w m d
    by (simp add: get_momentum_def momentum_reference_def ramp_def tf_truediv_def Let_def le)
qed

text \<open>
  Claim C3, as the code has it: for every step and every cycle length of at least 10,
  both multipliers are the piecewise reference function with the phase boundaries
  \<open>c div 10\<close>, \<open>c div 10 + 3c div 10\<close> and \<open>c div 10 + 3c div 10 + 6c div 10\<close>
  that the constructor computes by truncation; when 10 divides the cycle length these
  are 10, 40 and 100 percent of it, and the schedule is the claimed one.
\<close>

theorem one_cycle_schedule_piecewise:
  assumes c: "10 \<le> c"
  shows "schedule_call (OneCycleSchedule c) step
           = Inr (Finite (lr_reference (of_int (c div 10)) (of_int (c div 10 + 3 * c div 10))
                            (of_int (c div 10 + 3 * c div 10 + 6 * c div 10)) step)) \<and>
         get_momentum (OneCycleSchedule c) step
           = Inr (Finite (momentum_reference (of_int (c div 10)) (of_int (c div 10 + 3 * c div 10))
                            (of_int (c div 10 + 3 * c div 10 + 6 * c div 10)) step)) \<and>
         (10 dvd c \<longrightarrow>
            schedule_call (OneCycleSchedule c) step = Inr (Finite (lr_claimed c step)) \<and>
            get_momentum (OneCycleSchedule c) step = Inr (Finite (momentum_claimed c step)))"
proof -
  have c0: "0 \<le> c" using c by simp
  have w: "1 \<le> c div 10" using c pos_imp_zdiv_pos_iff [of 10 c] by simp
  have m: "c div 10 \<le> c div 10 + 3 * c div 10"
    using c0 pos_imp_zdiv_nonneg_iff [of 10 "3 * c"] by simp
  have d: "c div 10 + 3 * c div 10 \<le> c div 10 + 3 * c div 10 + 6 * c div 10"
    using c0 pos_imp_zdiv_nonneg_iff [of 10 "6 * c"] by simp
  note lr = schedule_call_piecewise [OF w m d, of step]
  note mo = get_momentum_piecewise [OF w m d, of step]
  have sc: "schedule_call (OneCycleSchedule c) step
           = Inr (Finite (lr_reference (of_int (c div 10)) (of_int (c div 10 + 3 * c div 10))
                            (of_int (c div 10 + 3 * c div 10 + 6 * c div 10)) step))"
    by (simp only: OneCycleSchedule_eq [OF c0] lr)
  have gm: "get_momentum (OneCycleSchedule c) step
           = Inr (Finite (momentum_reference (of_int (c div 10)) (of_int (c div 10 + 3 * c div 10))
                            (of_int (c div 10 + 3 * c div 10 + 6 * c div 10)) step))"
    by (simp only: OneCycleSchedule_eq [OF c0] mo)
  have cl: "schedule_call (OneCycleSchedule c) step = Inr (Finite (lr_claimed c step)) \<and>
            get_momentum (OneCycleSchedule c) step = Inr (Finite (momentum_claimed c step))"
    if "10 dvd c"
  proof -
    from that obtain k where k: "c = 10 * k" by (auto simp: dvd_def)
    have b1: "real_of_int (c div 10) = 0.1 * of_int c" unfolding k by simp
    have b2: "real_of_int (c div 10 + 3 * c div 10) = 0.4 * of_int c" unfolding k by simp
    have b3: "c div 10 + 3 * c div 10 + 6 * c div 10 = c" unfolding k by simp
    show ?thesis
      unfolding sc gm lr_claimed_def momentum_claimed_def b1 b2 b3 by simp
  qed
  from sc gm cl show ?thesis by blast
qed

theorem one_cycle_schedule_piecewise_witness:
  "(10::int) \<le> 20 \<and> (10::int) dvd 20 \<and>
   schedule_call (OneCycleSchedule 20) 25 = Inr (Finite (2476099 / 32000000)) \<and>
   get_momentum (OneCycleSchedule 20) 25 = Inr (Finite 0.95)"
proof -
  have h: "(10::int) \<le> 20" by simp
  have k: "(10::int) dvd 20" by simp
  have e: "lr_claimed 20 25 = 2476099 / 32000000"
    by (simp add: lr_claimed_def lr_reference_def power_divide)
  have f: "momentum_claimed 20 25 = 0.95"
    by (simp add: momentum_claimed_def momentum_reference_def)
  from one_cycle_schedule_piecewise [OF h, of 25] k
  have "schedule_call (OneCycleSchedule 20) 25 = Inr (Finite (lr_claimed 20 25))"
    and "get_momentum (OneCycleSchedule 20) 25 = Inr (Finite (momentum_claimed 20 25))"
    by blast+
  then show ?thesis unfolding e f using h k by blast
qed

text \<open>
  With cycle length 15 the constructor's boundaries are 1, 5 and 14, not 1.5, 6 and 15:
  at step 6 the code is already decaying while the claimed schedule is on its plateau.
\<close>

theorem one_cycle_schedule_counterexample:
  "(0::int) < 15 \<and>
   schedule_call (OneCycleSchedule 15) 6 = Inr (Finite 0.9) \<and> lr_claimed 15 6 = 1 \<and>
   get_momentum (OneCycleSchedule 15) 6 = Inr (Finite (0.85 + 0.1 / 9)) \<and>
   momentum_claimed 15 6 = 0.85"
  by (simp add: OneCycleSchedule_eq schedule_call_def get_momentum_def
      lr_claimed_def lr_reference_def momentum_claimed_def momentum_reference_def)

text \<open>Below 10 the warm-up is empty and step 0 divides by zero.\<close>

lemma schedule_nan_at_start:
  "schedule_call (OneCycleSchedule 5) 0 = Inr NaN"
  by (simp add: OneCycleSchedule_eq schedule_call_def tf_truediv_def)


section \<open>Results: the stochastic seed sampler\<close>

lemma length_split_rows: "length (split_rows vs ns) = length ns"
  by (induction ns arbitrary: vs) simp_all

lemma nth_split_rows:
  "i < length ns \<Longrightarrow> split_rows vs ns ! i = take (ns ! i) (drop (sum_list (take i ns)) vs)"
proof (induction ns arbitrary: vs i)
  case Nil
  then show ?case by simp
next
  case (Cons n ns)
  show ?case
  proof (cases i)
    case 0
    then show ?thesis by simp
  next
    case (Suc k)
    with Cons.prems have "k < length ns" by simp
    from Cons.IH [OF this, of "drop n vs"] Suc show ?thesis
      by (simp add: add.commute)
  qed
qed

lemma length_pad_to: "length (pad_to k d xs) = k"
  by (simp add: pad_to_def)

lemma nth_pad_to:
  "j < k \<Longrightarrow> pad_to k d xs ! j = (if j < length xs then xs ! j else d)"
  by (simp add: pad_to_def nth_append)

lemma pad_to_exact: "length xs = k \<Longrightarrow> pad_to k d xs = xs"
  by (simp add: pad_to_def)

lemma sum_take_le:
  "i < length (ns::nat list) \<Longrightarrow> sum_list (take i ns) + ns ! i \<le> sum_list ns"
proof (induction ns arbitrary: i)
  case Nil
  then show ?case by simp
next
  case (Cons n ns)
  then show ?case by (cases i) (simp_all add: add.assoc)
qed

text \<open>
  Claim C8: when every size is at most the capacity and the prior returns as many
  samples as it is asked for, each with the feature dimension of the model, the sampler
  returns a tensor of \<open>length sizes\<close> items, each of \<open>n\<close> slots of \<open>f\<close> features;
  item \<open>i\<close> holds its own drawn samples, in order, below \<open>sizes ! i\<close>, and the pad
  value in every feature of every slot from \<open>sizes ! i\<close> on.
\<close>

theorem sample_prior_batch_layout:
  assumes sz: "\<forall>s \<in> set sizes. s \<le> n"
    and cnt: "length (prior (sum_list sizes)) = sum_list sizes"
    and dim: "\<forall>e \<in> set (prior (sum_list sizes)). length e = f"
  shows "\<exists>t. sample_prior_batch prior pad n f sizes = Inr t \<and>
           length t = length sizes \<and>
           (\<forall>i < length sizes. length (t ! i) = n \<and>
              (\<forall>j < n. length (t ! i ! j) = f \<and>
                 (j < sizes ! i \<longrightarrow>
                    t ! i ! j = prior (sum_list sizes) ! (sum_list (take i sizes) + j)) \<and>
                 (sizes ! i \<le> j \<longrightarrow> t ! i ! j = replicate f pad)))"
proof -
  let ?vs = "prior (sum_list sizes)"
  let ?t = "to_tensor pad (length sizes) n f (split_rows ?vs sizes)"
  have run: "sample_prior_batch prior pad n f sizes = Inr ?t"
    by (simp add: sample_prior_batch_def sample_prior_def from_row_lengths_def cnt)
  have len: "length ?t = length sizes"
    by (simp add: to_tensor_def length_pad_to)
  have item: "length (?t ! i) = n \<and>
              (\<forall>j < n. length (?t ! i ! j) = f \<and>
                 (j < sizes ! i \<longrightarrow> ?t ! i ! j = ?vs ! (sum_list (take i sizes) + j)) \<and>
                 (sizes ! i \<le> j \<longrightarrow> ?t ! i ! j = replicate f pad))"
    if i: "i < length sizes" for i
  proof -
    let ?row = "split_rows ?vs sizes ! i"
    have row: "?row = take (sizes ! i) (drop (sum_list (take i sizes)) ?vs)"
      by (rule nth_split_rows [OF i])
    have bound: "sum_list (take i sizes) + sizes ! i \<le> length ?vs"
      using sum_take_le [OF i] cnt by simp
    have lrow: "length ?row = sizes ! i"
      unfolding row using bound by simp
    have ti: "?t ! i = pad_to n (replicate f pad) (map (pad_to f pad) ?row)"
      using i by (simp add: to_tensor_def nth_pad_to length_split_rows)
    have l1: "length (?t ! i) = n" unfolding ti by (rule length_pad_to)
    have si: "sizes ! i \<le> n" using sz i by simp
    have el: "length (?t ! i ! j) = f \<and>
                 (j < sizes ! i \<longrightarrow> ?t ! i ! j = ?vs ! (sum_list (take i sizes) + j)) \<and>
                 (sizes ! i \<le> j \<longrightarrow> ?t ! i ! j = replicate f pad)" if j: "j < n" for j
    proof (cases "j < sizes ! i")
      case True
      have rj: "?row ! j = ?vs ! (sum_list (take i sizes) + j)"
        unfolding row using True bound by simp
      have "sum_list (take i sizes) + j < length ?vs" using True bound by simp
      then have "?vs ! (sum_list (take i sizes) + j) \<in> set ?vs" by (rule nth_mem)
      with dim have lf: "length (?vs ! (sum_list (take i sizes) + j)) = f" by blast
      have "?t ! i ! j = pad_to f pad (?row ! j)"
        unfolding ti using j True lrow by (simp add: nth_pad_to)
      also have "\<dots> = ?vs ! (sum_list (take i sizes) + j)"
        unfolding rj by (rule pad_to_exact [OF lf])
      finally show ?thesis using True lf by simp
    next
      case False
      have "?t ! i ! j = replicate f pad"
        unfolding ti using j False lrow by (simp add: nth_pad_to)
      then show ?thesis using False by simp
    qed
    from l1 el show ?thesis by blast
  qed
  from run len item show ?thesis by blast
qed

theorem sample_prior_batch_layout_witness:
  "\<exists>t. sample_prior_batch (\<lambda>k. map (\<lambda>i. [real i, 7]) [0..<k]) (-1) 3 2 [2, 1] = Inr t \<and>
       length t = 2 \<and> length (t ! 1) = 3 \<and>
       t ! 0 ! 1 = [1, 7] \<and> t ! 0 ! 2 = [-1, -1] \<and>
       t ! 1 ! 0 = [2, 7] \<and> t ! 1 ! 1 = [-1, -1]"
proof -
  let ?P = "\<lambda>k. map (\<lambda>i. [real i, 7]) [0..<k]"
  have sz: "\<forall>s \<in> set [2, 1::nat]. s \<le> 3" by simp
  have cnt: "length (?P (sum_list [2, 1])) = sum_list [2, 1]" by simp
  have dim: "\<forall>e \<in> set (?P (sum_list [2, 1])). length e = 2" by auto
  from sample_prior_batch_layout [of "[2, 1]" 3 ?P 2 "-1", OF sz cnt dim]
  obtain t where run: "sample_prior_batch ?P (-1) 3 2 [2, 1] = Inr t"
    and len: "length t = length [2, 1::nat]"
    and item: "\<And>i j. i < length [2, 1::nat] \<Longrightarrow> j < 3 \<Longrightarrow>
        length (t ! i) = 3 \<and>
        (j < [2, 1] ! i \<longrightarrow> t ! i ! j = ?P (sum_list [2, 1]) ! (sum_list (take i [2, 1]) + j)) \<and>
        ([2, 1] ! i \<le> j \<longrightarrow> t ! i ! j = replicate 2 (-1))"
    by blast
  have l1: "length (t ! 1) = 3" using item [of 1 0] by simp
  have a: "t ! 0 ! 1 = [1, 7]" using item [of 0 1] by simp
  have b: "t ! 0 ! 2 = [-1, -1]" using item [of 0 2] by (simp add: numeral_2_eq_2)
  have c: "t ! 1 ! 0 = [2, 7]" using item [of 1 0] by simp
  have d: "t ! 1 ! 1 = [-1, -1]" using item [of 1 1] by (simp add: numeral_2_eq_2)
  from run len l1 a b c d show ?thesis by simp
qed

lemma sample_prior_batch_example:
  "sample_prior_batch (\<lambda>k. map (\<lambda>i. [real i, 7]) [0..<k]) (-1) 3 2 [2, 1]
     = Inr [[[0, 7], [1, 7], [-1, -1]], [[2, 7], [-1, -1], [-1, -1]]]"
  by (simp add: sample_prior_batch_def sample_prior_def from_row_lengths_def to_tensor_def
      pad_to_def upt_rec numeral_2_eq_2 numeral_3_eq_3)


section \<open>Results: the probabilistic Chamfer loss\<close>

lemma length_concat_map_upt:
  "(\<And>i. i < k \<Longrightarrow> length (g i) = n) \<Longrightarrow> length (concat (map g [0..<k])) = k * n"
  by (induction k) simp_all

lemma chunk_concat_map_upt:
  assumes len: "\<And>i. i < k \<Longrightarrow> length (g i) = n" and i: "i < k"
  shows "chunk n i (concat (map g [0..<k])) = g i"
  using assms
proof (induction k)
  case 0
  then show ?case by simp
next
  case (Suc k)
  have lk: "length (concat (map g [0..<k])) = k * n"
    using Suc.prems(1) by (intro length_concat_map_upt) simp
  show ?case
  proof (cases "i < k")
    case True
    then have ih: "chunk n i (concat (map g [0..<k])) = g i"
      using Suc.IH Suc.prems(1) by simp
    from True have "i * n + n \<le> k * n"
      by (metis Suc_leI mult_Suc mult_le_mono1 add.commute)
    then have "n \<le> length (drop (i * n) (concat (map g [0..<k])))"
      using lk by simp
    then show ?thesis
      using ih lk by (simp add: chunk_def)
  next
    case False
    with Suc.prems(2) have ik: "i = k" by simp
    show ?thesis
      using lk Suc.prems(1) [of k] by (simp add: chunk_def ik)
  qed
qed

lemma loop_append:
  "foldl (\<lambda>probs i. probs @ [g i]) acc [0..<m] = acc @ map g [0..<m]"
  by (induction m arbitrary: acc) simp_all

lemma length_log_prob: "length (log_prob lp dists b n row) = b * n"
  unfolding log_prob_def by (rule length_concat_map_upt) simp

lemma chunk_log_prob:
  "k < b \<Longrightarrow> chunk n k (log_prob lp dists b n row)
     = map (\<lambda>j. lp (dists ! (k * n + j)) (row ! k)) [0..<n]"
  unfolding log_prob_def by (rule chunk_concat_map_upt) simp_all

lemma split_axis2_nth:
  "i < n \<Longrightarrow> k < b \<Longrightarrow> split_axis2 xs b n f ! i ! k = chunk f (k * n + i) xs"
  by (simp add: split_axis2_def)

lemma log_probs_rowwise_eq_full:
  "log_probs_rowwise lp dists xs b n f n = log_probs_full lp dists xs b n f"
proof -
  have blk: "concat (map (chunk n k)
               (map (\<lambda>i. log_prob lp dists b n (split_axis2 xs b n f ! i)) [0..<n]))
             = concat (map (\<lambda>i. map (\<lambda>j. lp (dists ! (k * n + j)) (chunk f (k * n + i) xs)) [0..<n])
                 [0..<n])" if k: "k < b" for k
  proof -
    have "map (chunk n k) (map (\<lambda>i. log_prob lp dists b n (split_axis2 xs b n f ! i)) [0..<n])
            = map (\<lambda>i. map (\<lambda>j. lp (dists ! (k * n + j)) (chunk f (k * n + i) xs)) [0..<n]) [0..<n]"
      using k by (simp add: chunk_log_prob split_axis2_nth)
    then show ?thesis by (rule arg_cong)
  qed
  have "map (\<lambda>k. concat (map (chunk n k)
               (map (\<lambda>i. log_prob lp dists b n (split_axis2 xs b n f ! i)) [0..<n]))) [0..<b]
        = map (\<lambda>k. concat (map (\<lambda>i. map (\<lambda>j. lp (dists ! (k * n + j)) (chunk f (k * n + i) xs))
                 [0..<n]) [0..<n])) [0..<b]"
  proof (rule map_cong [OF refl])
    fix k assume "k \<in> set [0..<b]"
    then have "k < b" by simp
    then show "concat (map (chunk n k)
               (map (\<lambda>i. log_prob lp dists b n (split_axis2 xs b n f ! i)) [0..<n]))
             = concat (map (\<lambda>i. map (\<lambda>j. lp (dists ! (k * n + j)) (chunk f (k * n + i) xs)) [0..<n])
                 [0..<n])"
      by (rule blk)
  qed
  then have "concat (map (\<lambda>k. concat (map (chunk n k)
               (map (\<lambda>i. log_prob lp dists b n (split_axis2 xs b n f ! i)) [0..<n]))) [0..<b])
        = concat (map (\<lambda>k. concat (map (\<lambda>i. map (\<lambda>j. lp (dists ! (k * n + j)) (chunk f (k * n + i) xs))
                 [0..<n]) [0..<n])) [0..<b])"
    by (rule arg_cong)
  then show ?thesis
    by (simp only: log_probs_rowwise_def log_probs_full_def Let_def stack_axis2_def loop_append
        append_Nil)
qed

lemma length_log_probs_full: "length (log_probs_full lp dists xs b n f) = b * (n * n)"
  unfolding log_probs_full_def
  by (rule length_concat_map_upt, rule length_concat_map_upt) simp

lemma chunk_log_probs_full:
  "k < b \<Longrightarrow> chunk (n * n) k (log_probs_full lp dists xs b n f)
     = concat (map (\<lambda>i. map (\<lambda>j. lp (dists ! (k * n + j)) (chunk f (k * n + i) xs)) [0..<n]) [0..<n])"
  unfolding log_probs_full_def
  by (rule chunk_concat_map_upt, rule length_concat_map_upt) simp_all

lemma chunks_concat_rows:
  "chunks n n (concat (map (\<lambda>i. map (g i) [0..<n]) [0..<n])) = map (\<lambda>i. map (g i) [0..<n]) [0..<n]"
  unfolding chunks_def
proof (rule map_cong [OF refl])
  fix i assume "i \<in> set [0..<n]"
  then have "i < n" by simp
  then show "chunk n i (concat (map (\<lambda>i. map (g i) [0..<n]) [0..<n])) = map (g i) [0..<n]"
    by (intro chunk_concat_map_upt) simp_all
qed

lemma reduce_max_sizes_bounds:
  "(\<forall>s \<in> set xs. s \<le> fold max xs a) \<and> a \<le> fold max xs a \<and>
   ((\<forall>s \<in> set xs. s \<le> n) \<and> a \<le> n \<longrightarrow> fold max xs a \<le> (n::nat))"
proof (induction xs arbitrary: a)
  case Nil
  then show ?case by simp
next
  case (Cons x xs)
  from Cons.IH [of "max x a"] show ?case by (auto simp: max_def split: if_splits)
qed

lemma setwise_distance_block:
  assumes s: "0 < s"
  shows "setwise_distance (map (\<lambda>i. map (\<lambda>j. e i j) [0..<s]) [0..<s]) = Finite (chamfer_reference e s)"
proof -
  let ?m = "map (\<lambda>i. map (\<lambda>j. e i j) [0..<s]) [0..<s]"
  have a: "map reduce_max ?m = map (\<lambda>i. Max ((\<lambda>j. e i j) ` {..<s})) [0..<s]"
    by (simp add: reduce_max_def atLeast0LessThan comp_def)
  have b: "map (\<lambda>j. reduce_max (map (\<lambda>r. r ! j) ?m)) [0..<length ?m]
             = map (\<lambda>j. Max ((\<lambda>i. e i j) ` {..<s})) [0..<s]"
  proof -
    have "map (\<lambda>j. reduce_max (map (\<lambda>r. r ! j) ?m)) [0..<s]
             = map (\<lambda>j. Max ((\<lambda>i. e i j) ` {..<s})) [0..<s]"
    proof (rule map_cong [OF refl])
      fix j assume "j \<in> set [0..<s]"
      then have j: "j < s" by simp
      have "map (\<lambda>r. r ! j) ?m = map (\<lambda>i. e i j) [0..<s]"
        using j by (simp add: comp_def)
      then show "reduce_max (map (\<lambda>r. r ! j) ?m) = Max ((\<lambda>i. e i j) ` {..<s})"
        by (simp add: reduce_max_def atLeast0LessThan)
    qed
    then show ?thesis by simp
  qed
  have sm: "\<And>h::nat \<Rightarrow> real. reduce_mean (map h [0..<s]) = Finite ((\<Sum>i<s. h i) / real s)"
    using s by (simp add: reduce_mean_def interv_sum_list_conv_sum_set_nat atLeast0LessThan)
  show ?thesis
    unfolding setwise_distance_def Let_def a b sm chamfer_reference_def by simp
qed

lemma setwise_distance_empty: "setwise_distance [] = NaN"
  by (simp add: setwise_distance_def reduce_mean_def)

lemma take_block:
  "s \<le> n \<Longrightarrow> map (take s) (take s (map (\<lambda>i. map (g i) [0..<n]) [0..<n]))
     = map (\<lambda>i. map (g i) [0..<s]) [0..<s]"
  by (simp add: take_map)

lemma chamfer_of_log_probs_full:
  assumes n: "0 < n" and len: "length sizes_flat = b" and sz: "\<forall>s \<in> set sizes_flat. s \<le> n"
    and out: "prod_list out_shape = b"
  shows "chamfer_of_log_probs (log_probs_full lp dists xs b n f) sizes_flat out_shape n
     = Inr \<lparr>shape = out_shape,
            flat = map (\<lambda>k. item_loss (\<lambda>i j. lp (dists ! (k * n + j)) (chunk f (k * n + i) xs))
                              (sizes_flat ! k)) [0..<b]\<rparr>"
proof -
  let ?e = "\<lambda>k i j. lp (dists ! (k * n + j)) (chunk f (k * n + i) xs)"
  let ?lpf = "log_probs_full lp dists xs b n f"
  let ?L = "reduce_max_sizes sizes_flat"
  have nn: "0 < n * n" using n by simp
  have rs: "reshape_infer ?lpf [n, n] = Inr \<lparr>shape = [b, n, n], flat = ?lpf\<rparr>"
    using nn by (simp add: reshape_infer_def Let_def length_log_probs_full)
  have mats: "map (chunks n n) (chunks b (n * n) ?lpf)
                = map (\<lambda>k. map (\<lambda>i. map (?e k i) [0..<n]) [0..<n]) [0..<b]"
    unfolding chunks_def [of b] map_map
  proof (rule map_cong [OF refl])
    fix k assume "k \<in> set [0..<b]"
    then have "k < b" by simp
    then show "(chunks n n \<circ> (\<lambda>i. chunk (n * n) i ?lpf)) k = map (\<lambda>i. map (?e k i) [0..<n]) [0..<n]"
      by (simp add: chunk_log_probs_full chunks_concat_rows)
  qed
  have Ln: "?L \<le> n" and sL: "\<And>s. s \<in> set sizes_flat \<Longrightarrow> s \<le> ?L"
    using reduce_max_sizes_bounds [of sizes_flat 0 n] sz
    by (simp_all add: reduce_max_sizes_def)
  have trimmed: "map (\<lambda>m. map (take ?L) (take ?L m))
                   (map (\<lambda>k. map (\<lambda>i. map (?e k i) [0..<n]) [0..<n]) [0..<b])
                 = map (\<lambda>k. map (\<lambda>i. map (?e k i) [0..<?L]) [0..<?L]) [0..<b]"
    by (simp add: take_block [OF Ln] comp_def)
  have ragged: "map (\<lambda>(m, s). map (take s) (take s m))
                  (zip (map (\<lambda>k. map (\<lambda>i. map (?e k i) [0..<?L]) [0..<?L]) [0..<b]) sizes_flat)
                = map (\<lambda>k. map (\<lambda>i. map (?e k i) [0..<sizes_flat ! k]) [0..<sizes_flat ! k]) [0..<b]"
  proof (rule nth_equalityI)
    show "length (map (\<lambda>(m, s). map (take s) (take s m))
                  (zip (map (\<lambda>k. map (\<lambda>i. map (?e k i) [0..<?L]) [0..<?L]) [0..<b]) sizes_flat))
          = length (map (\<lambda>k. map (\<lambda>i. map (?e k i) [0..<sizes_flat ! k]) [0..<sizes_flat ! k]) [0..<b])"
      using len by simp
  next
    fix k
    assume "k < length (map (\<lambda>(m, s). map (take s) (take s m))
                  (zip (map (\<lambda>k. map (\<lambda>i. map (?e k i) [0..<?L]) [0..<?L]) [0..<b]) sizes_flat))"
    then have k: "k < b" using len by simp
    then have "sizes_flat ! k \<in> set sizes_flat" using len by simp
    then have "sizes_flat ! k \<le> ?L" by (rule sL)
    from take_block [OF this, of "?e k"] k len
    show "map (\<lambda>(m, s). map (take s) (take s m))
                  (zip (map (\<lambda>k. map (\<lambda>i. map (?e k i) [0..<?L]) [0..<?L]) [0..<b]) sizes_flat) ! k
          = map (\<lambda>k. map (\<lambda>i. map (?e k i) [0..<sizes_flat ! k]) [0..<sizes_flat ! k]) [0..<b] ! k"
      by simp
  qed
  have losses: "map setwise_distance
         (map (\<lambda>k. map (\<lambda>i. map (?e k i) [0..<sizes_flat ! k]) [0..<sizes_flat ! k]) [0..<b])
       = map (\<lambda>k. item_loss (?e k) (sizes_flat ! k)) [0..<b]"
    by (simp add: item_loss_def setwise_distance_block setwise_distance_empty comp_def)
  show ?thesis
    unfolding chamfer_of_log_probs_def rs
    using Ln len out
    by (simp only: Let_def mats trimmed ragged losses tensor.simps list.sel sum.case)
       (simp add: reshape_to_def)
qed

lemma prob_chamfer_distance_eq:
  assumes shp: "shape set_t = bs @ [n, f]" and n: "0 < n" and ds: "shape set_dists = bs @ [n]"
    and len: "length (flat sizes) = prod_list bs" and sz: "\<forall>s \<in> set (flat sizes). s \<le> n"
  shows "prob_chamfer_distance lp set_dists set_t sizes n
     = Inr \<lparr>shape = bs,
            flat = map (\<lambda>k. item_loss (\<lambda>i j. lp (flat set_dists ! (k * n + j))
                                               (chunk f (k * n + i) (flat set_t)))
                              (flat sizes ! k)) [0..<prod_list bs]\<rparr>"
proof -
  have r: "rev (shape set_t) = f # n # rev bs" by (simp add: shp)
  show ?thesis
    unfolding prob_chamfer_distance_def r
    using n ds
    by (simp add: log_probs_rowwise_eq_full
        chamfer_of_log_probs_full [OF n len sz refl])
qed

lemma chamfer_reference_cong:
  assumes "\<And>i j. i < s \<Longrightarrow> j < s \<Longrightarrow> e i j = e' i j"
  shows "chamfer_reference e s = chamfer_reference e' s"
proof -
  have a: "(\<Sum>i<s. Max ((\<lambda>j. e i j) ` {..<s})) = (\<Sum>i<s. Max ((\<lambda>j. e' i j) ` {..<s}))"
    by (rule sum.cong [OF refl], rule arg_cong [where f = Max], rule image_cong [OF refl])
       (simp add: assms)
  have b: "(\<Sum>j<s. Max ((\<lambda>i. e i j) ` {..<s})) = (\<Sum>j<s. Max ((\<lambda>i. e' i j) ` {..<s}))"
    by (rule sum.cong [OF refl], rule arg_cong [where f = Max], rule image_cong [OF refl])
       (simp add: assms)
  show ?thesis unfolding chamfer_reference_def a b ..
qed

lemma chamfer_reference_diag:
  assumes s: "0 < s"
    and row: "\<And>i j. i < s \<Longrightarrow> j < s \<Longrightarrow> e i j \<le> e i i"
    and col: "\<And>i j. i < s \<Longrightarrow> j < s \<Longrightarrow> e i j \<le> e j j"
  shows "chamfer_reference e s = 2 * ((\<Sum>i<s. e i i) / real s)"
proof -
  have a: "Max ((\<lambda>j. e i j) ` {..<s}) = e i i" if "i < s" for i
    using that row by (intro Max_eqI) auto
  have b: "Max ((\<lambda>i. e i j) ` {..<s}) = e j j" if "j < s" for j
    using that col by (intro Max_eqI) auto
  show ?thesis
    unfolding chamfer_reference_def by (simp add: a b)
qed

lemma normal_log_prob_le: "normal_log_prob sigma mu x \<le> normal_log_prob sigma x x"
  by (simp add: normal_log_prob_def)

lemma normal_log_prob_self: "normal_log_prob sigma mu mu = normal_log_prob sigma x x"
  by (simp add: normal_log_prob_def)

lemma inl_pair_le_value:
  "independent_normal_log_prob sigma [a, b] [c, d] \<le> independent_normal_log_prob sigma [c, d] [c, d]"
  unfolding independent_normal_log_prob_def
  using normal_log_prob_le [of sigma a c] normal_log_prob_le [of sigma b d] by simp

lemma inl_pair_le_mean:
  "independent_normal_log_prob sigma [a, b] [c, d] \<le> independent_normal_log_prob sigma [a, b] [a, b]"
  unfolding independent_normal_log_prob_def
  using normal_log_prob_le [of sigma a c] normal_log_prob_le [of sigma b d]
    normal_log_prob_self [of sigma a c] normal_log_prob_self [of sigma b d] by simp

text \<open>
  Claim C6: the score tensor assembled row by row and stacked is the comparison tensor
  computed at once, entry for entry, before any slicing or ragged restriction; hence the
  loss computed from it is the loss computed from the full tensor, on every input.
\<close>

theorem rowwise_matches_full_tensor:
  "log_probs_rowwise lp dists xs b n f n = log_probs_full lp dists xs b n f \<and>
   prob_chamfer_distance lp set_dists set_t sizes max_size
     = prob_chamfer_naive lp set_dists set_t sizes max_size"
proof
  show "log_probs_rowwise lp dists xs b n f n = log_probs_full lp dists xs b n f"
    by (rule log_probs_rowwise_eq_full)
  show "prob_chamfer_distance lp set_dists set_t sizes max_size
     = prob_chamfer_naive lp set_dists set_t sizes max_size"
    unfolding prob_chamfer_distance_def prob_chamfer_naive_def
    by (auto simp: log_probs_rowwise_eq_full split: list.splits)
qed

text \<open>
  Claim C1: for a set of shape \<open>bs @ [n, f]\<close>, distributions of batch shape
  \<open>bs @ [n]\<close> and one size between 1 and \<open>n\<close> per batch item, the loss of batch item
  \<open>k\<close> is the mean over its valid rows of the maximal score of that set element under
  the valid distributions, plus the mean over its valid columns of the column maximum.
\<close>

theorem prob_chamfer_loss_value:
  assumes "shape set_t = bs @ [n, f]" and "0 < n" and "shape set_dists = bs @ [n]"
    and "length (flat sizes) = prod_list bs"
    and "\<forall>s \<in> set (flat sizes). 1 \<le> s \<and> s \<le> n"
  shows "\<exists>t. prob_chamfer_distance lp set_dists set_t sizes n = Inr t \<and>
           length (flat t) = prod_list bs \<and>
           (\<forall>k < prod_list bs.
              flat t ! k = Finite (chamfer_reference
                 (\<lambda>i j. lp (flat set_dists ! (k * n + j)) (chunk f (k * n + i) (flat set_t)))
                 (flat sizes ! k)))"
proof -
  have sz: "\<forall>s \<in> set (flat sizes). s \<le> n" using assms(5) by simp
  have pos: "flat sizes ! k \<noteq> 0" if "k < prod_list bs" for k
  proof -
    from that assms(4) have "flat sizes ! k \<in> set (flat sizes)" by simp
    with assms(5) show ?thesis by fastforce
  qed
  show ?thesis
    unfolding prob_chamfer_distance_eq [OF assms(1-4) sz]
    by (simp add: item_loss_def pos)
qed

text \<open>
  Claim C2: two inputs of the same shapes and sizes that agree, for every batch item, on
  the set elements and on the distributions in the slots below the item's size have the
  same loss: what is stored in the padded slots never reaches the result.
\<close>

theorem padding_does_not_matter:
  assumes "shape set_t = bs @ [n, f]" and "shape set_t' = bs @ [n, f]" and "0 < n"
    and "shape set_dists = bs @ [n]" and "shape set_dists' = bs @ [n]"
    and "length (flat sizes) = prod_list bs"
    and "\<forall>s \<in> set (flat sizes). s \<le> n"
    and agree: "\<forall>k < prod_list bs. \<forall>i < flat sizes ! k.
           chunk f (k * n + i) (flat set_t) = chunk f (k * n + i) (flat set_t') \<and>
           flat set_dists ! (k * n + i) = flat set_dists' ! (k * n + i)"
  shows "prob_chamfer_distance lp set_dists set_t sizes n
           = prob_chamfer_distance lp set_dists' set_t' sizes n"
proof -
  have "map (\<lambda>k. item_loss (\<lambda>i j. lp (flat set_dists ! (k * n + j))
                                 (chunk f (k * n + i) (flat set_t))) (flat sizes ! k))
            [0..<prod_list bs]
      = map (\<lambda>k. item_loss (\<lambda>i j. lp (flat set_dists' ! (k * n + j))
                                 (chunk f (k * n + i) (flat set_t'))) (flat sizes ! k))
            [0..<prod_list bs]"
  proof (rule map_cong [OF refl])
    fix k assume "k \<in> set [0..<prod_list bs]"
    then have k: "k < prod_list bs" by simp
    have "chamfer_reference (\<lambda>i j. lp (flat set_dists ! (k * n + j))
                                 (chunk f (k * n + i) (flat set_t))) (flat sizes ! k)
        = chamfer_reference (\<lambda>i j. lp (flat set_dists' ! (k * n + j))
                                 (chunk f (k * n + i) (flat set_t'))) (flat sizes ! k)"
      by (rule chamfer_reference_cong) (use agree k in simp)
    then show "item_loss (\<lambda>i j. lp (flat set_dists ! (k * n + j))
                                 (chunk f (k * n + i) (flat set_t))) (flat sizes ! k)
        = item_loss (\<lambda>i j. lp (flat set_dists' ! (k * n + j))
                                 (chunk f (k * n + i) (flat set_t'))) (flat sizes ! k)"
      by (simp add: item_loss_def)
  qed
  then show ?thesis
    unfolding prob_chamfer_distance_eq [OF assms(1) assms(3) assms(4) assms(6) assms(7)]
      prob_chamfer_distance_eq [OF assms(2) assms(3) assms(5) assms(6) assms(7)]
    by simp
qed


text \<open>
  Claim C7: the set \<open>[[0.5,0.75],[0.1,0.25],[0.35,0.9]]\<close> of size 3, scored under
  independent Normals of one fixed positive scale centred on its own elements, has the
  loss 2 times the mean over the elements of the log-density of each element at its own
  mean: every row and column maximum lies on the diagonal.
\<close>

theorem self_match_loss:
  assumes "0 < sigma"
  shows "prob_chamfer_distance (independent_normal_log_prob sigma)
           \<lparr>shape = [1, 3], flat = [[0.5, 0.75], [0.1, 0.25], [0.35, 0.9]]\<rparr>
           \<lparr>shape = [1, 3, 2], flat = [0.5, 0.75, 0.1, 0.25, 0.35, 0.9]\<rparr>
           \<lparr>shape = [1], flat = [3]\<rparr> 3
         = Inr \<lparr>shape = [1], flat = [Finite (2 *
             ((independent_normal_log_prob sigma [0.5, 0.75] [0.5, 0.75] +
               independent_normal_log_prob sigma [0.1, 0.25] [0.1, 0.25] +
               independent_normal_log_prob sigma [0.35, 0.9] [0.35, 0.9]) / 3))]\<rparr>"
proof -
  let ?D = "[[0.5, 0.75], [0.1, 0.25], [0.35, 0.9::real]]"
  let ?xs = "[0.5, 0.75, 0.1, 0.25, 0.35, 0.9::real]"
  let ?e = "\<lambda>i j. independent_normal_log_prob sigma (?D ! (0 * 3 + j)) (chunk 2 (0 * 3 + i) ?xs)"
  have three: "\<And>i::nat. i < 3 \<longleftrightarrow> i = 0 \<or> i = 1 \<or> i = 2" by auto
  have row: "?e i j \<le> ?e i i" if "i < 3" "j < 3" for i j
    using that unfolding three by (auto simp: chunk_def inl_pair_le_value)
  have col: "?e i j \<le> ?e j j" if "i < 3" "j < 3" for i j
    using that unfolding three by (auto simp: chunk_def inl_pair_le_mean)
  have "chamfer_reference ?e 3 = 2 * ((\<Sum>i<3. ?e i i) / real 3)"
    by (rule chamfer_reference_diag) (use row col in simp_all)
  also have "(\<Sum>i<3. ?e i i) =
      independent_normal_log_prob sigma [0.5, 0.75] [0.5, 0.75] +
      independent_normal_log_prob sigma [0.1, 0.25] [0.1, 0.25] +
      independent_normal_log_prob sigma [0.35, 0.9] [0.35, 0.9]"
    by (simp add: numeral_3_eq_3 chunk_def)
  finally have cr: "chamfer_reference ?e 3 = 2 *
             ((independent_normal_log_prob sigma [0.5, 0.75] [0.5, 0.75] +
               independent_normal_log_prob sigma [0.1, 0.25] [0.1, 0.25] +
               independent_normal_log_prob sigma [0.35, 0.9] [0.35, 0.9]) / 3)"
    by simp
  have "prob_chamfer_distance (independent_normal_log_prob sigma)
           \<lparr>shape = [1, 3], flat = ?D\<rparr> \<lparr>shape = [1, 3, 2], flat = ?xs\<rparr>
           \<lparr>shape = [1], flat = [3]\<rparr> 3
        = Inr \<lparr>shape = [1], flat = map (\<lambda>k. item_loss (\<lambda>i j. independent_normal_log_prob sigma
                     (?D ! (k * 3 + j)) (chunk 2 (k * 3 + i) ?xs)) ([3] ! k)) [0..<prod_list [1]]\<rparr>"
    using prob_chamfer_distance_eq [of "\<lparr>shape = [1, 3, 2], flat = ?xs\<rparr>" "[1]" 3 2
        "\<lparr>shape = [1, 3], flat = ?D\<rparr>" "\<lparr>shape = [1], flat = [3]\<rparr>"
        "independent_normal_log_prob sigma"]
    by simp
  also have "map (\<lambda>k. item_loss (\<lambda>i j. independent_normal_log_prob sigma
                     (?D ! (k * 3 + j)) (chunk 2 (k * 3 + i) ?xs)) ([3] ! k)) [0..<prod_list [1]]
      = [Finite (chamfer_reference ?e 3)]"
    by (simp add: item_loss_def)
  finally show ?thesis unfolding cr .
qed

theorem rowwise_matches_full_tensor_witness:
  "log_probs_rowwise (\<lambda>d x. - \<bar>d - hd x\<bar>) [0, 3] [0, 1] 1 2 1 2
     = log_probs_full (\<lambda>d x. - \<bar>d - hd x\<bar>) [0, 3] [0, 1] 1 2 1 \<and>
   prob_chamfer_distance (\<lambda>d x. - \<bar>d - hd x\<bar>)
       \<lparr>shape = [1, 2], flat = [0, 3]\<rparr> \<lparr>shape = [1, 2, 1], flat = [0, 1]\<rparr>
       \<lparr>shape = [1], flat = [2]\<rparr> 2
     = prob_chamfer_naive (\<lambda>d x. - \<bar>d - hd x\<bar>)
       \<lparr>shape = [1, 2], flat = [0, 3]\<rparr> \<lparr>shape = [1, 2, 1], flat = [0, 1]\<rparr>
       \<lparr>shape = [1], flat = [2]\<rparr> 2"
  by (rule rowwise_matches_full_tensor)

theorem prob_chamfer_loss_value_witness:
  "\<exists>t. prob_chamfer_distance (\<lambda>d x. - \<bar>d - hd x\<bar>)
          \<lparr>shape = [1, 2], flat = [0, 3]\<rparr> \<lparr>shape = [1, 2, 1], flat = [0, 1]\<rparr>
          \<lparr>shape = [1], flat = [2]\<rparr> 2 = Inr t \<and>
       length (flat t) = 1 \<and> flat t ! 0 = Finite (- 3 / 2)"
proof -
  let ?lp = "\<lambda>(d::real) (x::real list). - \<bar>d - hd x\<bar>"
  let ?D = "\<lparr>shape = [1, 2], flat = [0, 3::real]\<rparr>"
  let ?S = "\<lparr>shape = [1, 2, 1], flat = [0, 1::real]\<rparr>"
  let ?Z = "\<lparr>shape = [1], flat = [2::nat]\<rparr>"
  have h1: "shape ?S = [1] @ [2, 1]" by simp
  have h2: "(0::nat) < 2" by simp
  have h3: "shape ?D = [1] @ [2]" by simp
  have h4: "length (flat ?Z) = prod_list [1]" by simp
  have h5: "\<forall>s \<in> set (flat ?Z). 1 \<le> s \<and> s \<le> 2" by simp
  from prob_chamfer_loss_value [OF h1 h2 h3 h4 h5, of ?lp]
  obtain t where run: "prob_chamfer_distance ?lp ?D ?S ?Z 2 = Inr t"
    and len: "length (flat t) = prod_list [1]"
    and val: "\<And>k. k < prod_list [1] \<Longrightarrow>
       flat t ! k = Finite (chamfer_reference
                 (\<lambda>i j. ?lp (flat ?D ! (k * 2 + j)) (chunk 1 (k * 2 + i) (flat ?S)))
                 (flat ?Z ! k))"
    by blast
  have "flat t ! 0 = Finite (- 3 / 2)"
    using val [of 0] by (simp add: chamfer_reference_def chunk_def numeral_2_eq_2 lessThan_Suc)
  with run len show ?thesis by simp
qed

theorem padding_does_not_matter_witness:
  "prob_chamfer_distance (\<lambda>d x. - \<bar>d - hd x\<bar>)
       \<lparr>shape = [1, 2], flat = [5, 7]\<rparr> \<lparr>shape = [1, 2, 1], flat = [4, 9]\<rparr>
       \<lparr>shape = [1], flat = [1]\<rparr> 2
     = prob_chamfer_distance (\<lambda>d x. - \<bar>d - hd x\<bar>)
       \<lparr>shape = [1, 2], flat = [5, - 4]\<rparr> \<lparr>shape = [1, 2, 1], flat = [4, 100]\<rparr>
       \<lparr>shape = [1], flat = [1]\<rparr> 2"
proof -
  let ?Z = "\<lparr>shape = [1], flat = [1::nat]\<rparr>"
  let ?S = "\<lparr>shape = [1, 2, 1], flat = [4, 9::real]\<rparr>"
  let ?S' = "\<lparr>shape = [1, 2, 1], flat = [4, 100::real]\<rparr>"
  let ?D = "\<lparr>shape = [1, 2], flat = [5, 7::real]\<rparr>"
  let ?D' = "\<lparr>shape = [1, 2], flat = [5, - 4::real]\<rparr>"
  have h1: "shape ?S = [1] @ [2, 1]" and h2: "shape ?S' = [1] @ [2, 1]" by simp_all
  have h3: "(0::nat) < 2" by simp
  have h4: "shape ?D = [1] @ [2]" and h5: "shape ?D' = [1] @ [2]" by simp_all
  have h6: "length (flat ?Z) = prod_list [1]" by simp
  have h7: "\<forall>s \<in> set (flat ?Z). s \<le> 2" by simp
  have h8: "\<forall>k < prod_list [1]. \<forall>i < flat ?Z ! k.
           chunk 1 (k * 2 + i) (flat ?S) = chunk 1 (k * 2 + i) (flat ?S') \<and>
           flat ?D ! (k * 2 + i) = flat ?D' ! (k * 2 + i)"
    by (simp add: chunk_def)
  show ?thesis
    by (rule padding_does_not_matter [OF h1 h2 h3 h4 h5 h6 h7 h8])
qed


theorem self_match_loss_witness:
  "prob_chamfer_distance (independent_normal_log_prob 0.005)
           \<lparr>shape = [1, 3], flat = [[0.5, 0.75], [0.1, 0.25], [0.35, 0.9]]\<rparr>
           \<lparr>shape = [1, 3, 2], flat = [0.5, 0.75, 0.1, 0.25, 0.35, 0.9]\<rparr>
           \<lparr>shape = [1], flat = [3]\<rparr> 3
         = Inr \<lparr>shape = [1], flat = [Finite (2 *
             ((independent_normal_log_prob 0.005 [0.5, 0.75] [0.5, 0.75] +
               independent_normal_log_prob 0.005 [0.1, 0.25] [0.1, 0.25] +
               independent_normal_log_prob 0.005 [0.35, 0.9] [0.35, 0.9]) / 3))]\<rparr>"
proof -
  have h: "(0::real) < 0.005" by simp
  show ?thesis by (rule self_match_loss [OF h])
qed

end
